theory Spec2Isabelle
  imports Main
begin

section \<open>JavaScript strings\<close>

text \<open>
  A JavaScript string is a sequence of UTF-16 code units. The regular expressions of
  the program carry no \<open>u\<close> flag, so they, \<open>trim\<close>, \<open>split\<close> and \<open>startsWith\<close> all work
  on code units. A code unit is represented by its value, a natural number (below 65536
  in every string the program can meet); the program only compares code units, it does no
  arithmetic on them, so no wrap-around arises and every theorem below about all lists of
  naturals holds in particular for all strings. ASCII literals of the source are written
  \<open>js ''...''\<close>.
\<close>

type_synonym jschar = nat
type_synonym jsstring = "jschar list"

definition js :: "string \<Rightarrow> jsstring" where
  "js s = map of_char s"

text \<open>
  White space as \<open>String.prototype.trim\<close> and the class \<open>\s\<close> see it: the WhiteSpace and
  LineTerminator code points of ECMAScript (TAB, LF, VT, FF, CR, SP, NBSP, U+1680,
  U+2000 to U+200A, U+2028, U+2029, U+202F, U+205F, U+3000, U+FEFF).
\<close>

definition isWhiteSpace :: "jschar \<Rightarrow> bool" where
  "isWhiteSpace c \<longleftrightarrow>
     c \<in> set [0x0009, 0x000A, 0x000B, 0x000C, 0x000D, 0x0020, 0x00A0, 0x1680,
              0x2000, 0x2001, 0x2002, 0x2003, 0x2004, 0x2005, 0x2006, 0x2007,
              0x2008, 0x2009, 0x200A, 0x2028, 0x2029, 0x202F, 0x205F, 0x3000, 0xFEFF]"

text \<open>The line terminators, which the regular-expression atom \<open>.\<close> does not match.\<close>

definition isLineTerminator :: "jschar \<Rightarrow> bool" where
  "isLineTerminator c \<longleftrightarrow> c \<in> set [0x000A, 0x000D, 0x2028, 0x2029]"

text \<open>\<open>s.trim()\<close>: white space removed at both ends.\<close>

definition trim :: "jsstring \<Rightarrow> jsstring" where
  "trim s = rev (dropWhile isWhiteSpace (rev (dropWhile isWhiteSpace s)))"

text \<open>\<open>s.startsWith(p)\<close>.\<close>

fun startsWith :: "jsstring \<Rightarrow> jsstring \<Rightarrow> bool" where
  "startsWith s [] = True"
| "startsWith [] (p # ps) = False"
| "startsWith (c # cs) (p # ps) = (c = p \<and> startsWith cs ps)"

text \<open>
  \<open>s.split(sep)\<close> for a separator of one code unit (the program splits on \<open>'\n'\<close>,
  \<open>'|'\<close> and \<open>','\<close>). The result is never empty: the empty string gives one empty piece.
\<close>

fun split :: "jschar \<Rightarrow> jsstring \<Rightarrow> jsstring list" where
  "split sep [] = [[]]"
| "split sep (c # cs) =
     (if c = sep then [] # split sep cs
      else (case split sep cs of [] \<Rightarrow> [[c]] | w # ws \<Rightarrow> (c # w) # ws))"

definition newline :: jschar where "newline = 0x000A"
definition pipe :: jschar where "pipe = 0x007C"
definition comma :: jschar where "comma = 0x002C"

section \<open>Regular expressions of the program\<close>

text \<open>
  \<open>text.match(re)\<close> without the \<open>g\<close> flag tries the pattern at start index 0, 1, 2, ... and
  returns the first attempt that succeeds; \<open>regex_search m\<close> is that loop, for \<open>m\<close> the
  attempt at the start of the remaining input (the result is capture group 1).
\<close>

fun regex_search :: "(jsstring \<Rightarrow> jsstring option) \<Rightarrow> jsstring \<Rightarrow> jsstring option" where
  "regex_search m [] = m []"
| "regex_search m (c # cs) =
     (case m (c # cs) of Some cap \<Rightarrow> Some cap | None \<Rightarrow> regex_search m cs)"

text \<open>
  The lazy group \<open>(X*?)\<close> followed by the literal \<open>lit\<close>, for a character class \<open>X\<close>
  given as the predicate \<open>cls\<close>: at each position the matcher first tries the literal and
  only when that fails consumes one more code unit of the class. It fails at the end of
  the input or at a code unit outside the class.
\<close>

fun lazy_star :: "(jschar \<Rightarrow> bool) \<Rightarrow> jsstring \<Rightarrow> jsstring \<Rightarrow> jsstring option" where
  "lazy_star cls lit [] = (if startsWith [] lit then Some [] else None)"
| "lazy_star cls lit (c # cs) =
     (if startsWith (c # cs) lit then Some []
      else if cls c then map_option ((#) c) (lazy_star cls lit cs)
      else None)"

text \<open>One attempt of \<open>/A(X*?)B/\<close> at the start of \<open>s\<close>.\<close>

definition lazy_between_at ::
  "jsstring \<Rightarrow> (jschar \<Rightarrow> bool) \<Rightarrow> jsstring \<Rightarrow> jsstring \<Rightarrow> jsstring option" where
  "lazy_between_at A cls B s =
     (if startsWith s A then lazy_star cls B (drop (length A) s) else None)"

text \<open>One attempt of \<open>/A([\s\S]*)/\<close> at the start of \<open>s\<close>: the greedy group takes the rest.\<close>

definition greedy_after_at :: "jsstring \<Rightarrow> jsstring \<Rightarrow> jsstring option" where
  "greedy_after_at A s = (if startsWith s A then Some (drop (length A) s) else None)"

text \<open>\<open>[\s\S]\<close> matches every code unit.\<close>

definition anyChar :: "jschar \<Rightarrow> bool" where
  "anyChar c = (isWhiteSpace c \<or> \<not> isWhiteSpace c)"

section \<open>The response parser (App.tsx)\<close>

text \<open>The field \<open>notes\<close> of the source is \<open>notes'\<close> here (\<open>notes\<close> is reserved).\<close>

record TableRow =
  timestamp :: jsstring
  action :: jsstring
  notes' :: jsstring

record ParsedAnalysis =
  globalCohesionBlock :: jsstring
  sceneBreakdown :: "TableRow list"
  technicalAnalysis :: jsstring

definition GLOBAL_COHESION_BLOCK :: jsstring where
  "GLOBAL_COHESION_BLOCK = js ''GLOBAL COHESION BLOCK''"

definition DETAILED_SCENE_BREAKDOWN_TABLE :: jsstring where
  "DETAILED_SCENE_BREAKDOWN_TABLE = js ''DETAILED SCENE BREAKDOWN TABLE''"

definition TECHNICAL_STYLE_ANALYSIS :: jsstring where
  "TECHNICAL_STYLE_ANALYSIS = js ''TECHNICAL STYLE ANALYSIS''"

text \<open>
  \<open>text.match(/GLOBAL COHESION BLOCK([\s\S]*?)DETAILED SCENE BREAKDOWN TABLE/)\<close>, then
  \<open>match ? match[1].trim() : ''\<close>.
\<close>

definition globalCohesionBlockMatch :: "jsstring \<Rightarrow> jsstring option" where
  "globalCohesionBlockMatch text =
     regex_search (lazy_between_at GLOBAL_COHESION_BLOCK anyChar DETAILED_SCENE_BREAKDOWN_TABLE) text"

definition globalCohesionBlockOf :: "jsstring \<Rightarrow> jsstring" where
  "globalCohesionBlockOf text =
     (case globalCohesionBlockMatch text of Some cap \<Rightarrow> trim cap | None \<Rightarrow> [])"

definition tableMatch :: "jsstring \<Rightarrow> jsstring option" where
  "tableMatch text =
     regex_search (lazy_between_at DETAILED_SCENE_BREAKDOWN_TABLE anyChar TECHNICAL_STYLE_ANALYSIS) text"

definition tableString :: "jsstring \<Rightarrow> jsstring" where
  "tableString text = (case tableMatch text of Some cap \<Rightarrow> trim cap | None \<Rightarrow> [])"

text \<open>
  The callback of \<open>.map\<close>: the cells of a line are its pieces between pipes, trimmed, the
  empty ones dropped; a row comes out of exactly three cells, \<open>null\<close> otherwise.
\<close>

definition cellsOf :: "jsstring \<Rightarrow> jsstring list" where
  "cellsOf row = filter (\<lambda>cell. cell \<noteq> []) (map trim (split pipe row))"

definition rowOf :: "jsstring \<Rightarrow> TableRow option" where
  "rowOf row =
     (let cells = cellsOf row in
      if length cells = 3
      then Some \<lparr>timestamp = cells ! 0, action = cells ! 1, notes' = cells ! 2\<rparr>
      else None)"

text \<open>\<open>tableString.split('\n').slice(2).map(...).filter(row => row !== null)\<close>.\<close>

definition rowsOfLines :: "jsstring list \<Rightarrow> TableRow list" where
  "rowsOfLines ls = map the (filter (\<lambda>row. row \<noteq> None) (map rowOf ls))"

definition sceneBreakdownOfTable :: "jsstring \<Rightarrow> TableRow list" where
  "sceneBreakdownOfTable tbl = rowsOfLines (drop 2 (split newline tbl))"

definition sceneBreakdownOf :: "jsstring \<Rightarrow> TableRow list" where
  "sceneBreakdownOf text = sceneBreakdownOfTable (tableString text)"

definition technicalAnalysisMatch :: "jsstring \<Rightarrow> jsstring option" where
  "technicalAnalysisMatch text = regex_search (greedy_after_at TECHNICAL_STYLE_ANALYSIS) text"

definition technicalAnalysisOf :: "jsstring \<Rightarrow> jsstring" where
  "technicalAnalysisOf text =
     (case technicalAnalysisMatch text of Some cap \<Rightarrow> trim cap | None \<Rightarrow> [])"

text \<open>
  \<open>parseAnalysisResult\<close>; \<open>None\<close> is \<open>null\<close>. A string is falsy exactly when it is empty.
  Every operation in the \<open>try\<close> block (\<open>match\<close>, \<open>trim\<close>, \<open>split\<close>, \<open>slice\<close>, \<open>map\<close>,
  \<open>filter\<close>, indexing a three-element array) is defined on every string, so the
  \<open>catch\<close> branch, which also returns \<open>null\<close>, is never entered.
\<close>

definition parseAnalysisResult :: "jsstring \<Rightarrow> ParsedAnalysis option" where
  "parseAnalysisResult text =
     (let globalCohesionBlock = globalCohesionBlockOf text;
          sceneBreakdown = sceneBreakdownOf text;
          technicalAnalysis = technicalAnalysisOf text
      in if globalCohesionBlock = [] \<and> length sceneBreakdown = 0 \<and> technicalAnalysis = []
         then None
         else Some \<lparr>globalCohesionBlock = globalCohesionBlock,
                     sceneBreakdown = sceneBreakdown,
                     technicalAnalysis = technicalAnalysis\<rparr>)"

section \<open>The binary encoder (utils/fileUtils) and the analysis client (services/geminiService)\<close>

text \<open>
  A value that is thrown, or that a promise rejects with: an instance of \<open>Error\<close> with its
  \<open>message\<close>, or a value that is no \<open>Error\<close> (the event object of \<open>FileReader.onerror\<close>
  is one).
\<close>

datatype thrown = ErrorInstance jsstring | OtherValue

text \<open>
  How \<open>reader.readAsDataURL(file)\<close> ends: \<open>onload\<close> fires with \<open>reader.result\<close>, or
  \<open>onerror\<close> fires.
\<close>

datatype read_outcome = OnLoad jsstring | OnError

record EncodedMedia =
  base64Data :: jsstring
  mimeType :: jsstring

text \<open>The argument of \<open>ai.models.generateContent\<close>.\<close>

record request =
  model_name :: jsstring
  inline_data :: jsstring
  inline_mimeType :: jsstring
  text_part :: jsstring
  thinkingBudget :: nat

text \<open>
  What the module does not define itself: how reading a file ends, what the remote model
  answers to a request (a text, or a rejection), and the instruction template \<open>PROMPT\<close>, a
  long constant whose wording no property below depends on.
\<close>

record 'f world =
  readAsDataURL :: "'f \<Rightarrow> read_outcome"
  generateContent :: "request \<Rightarrow> thrown + jsstring"
  PROMPT :: jsstring

text \<open>\<open>meta.match(/:(.*?);/)\<close>: the atom \<open>.\<close> matches everything but a line terminator.\<close>

definition mimeMatch :: "jsstring \<Rightarrow> jsstring option" where
  "mimeMatch meta =
     regex_search (lazy_between_at (js '':'') (\<lambda>c. \<not> isLineTerminator c) (js '';'')) meta"

text \<open>
  \<open>fileToBase64\<close>; \<open>Inl\<close> is a rejected promise. The match array of a pattern with one group
  has length 2, so the test \<open>mimeMatch.length < 2\<close> never adds a case.
\<close>

definition fileToBase64 :: "'f world \<Rightarrow> 'f \<Rightarrow> thrown + EncodedMedia" where
  "fileToBase64 w file =
     (case readAsDataURL w file of
        OnError \<Rightarrow> Inl OtherValue
      | OnLoad result \<Rightarrow>
          (let parts = split comma result in
           if length parts \<noteq> 2 then Inl (ErrorInstance (js ''Invalid data URL format''))
           else
             (let meta = parts ! 0; data = parts ! 1 in
              case mimeMatch meta of
                None \<Rightarrow> Inl (ErrorInstance (js ''Could not determine MIME type from data URL''))
              | Some mt \<Rightarrow> Inr \<lparr>base64Data = data, mimeType = mt\<rparr>)))"

text \<open>
  The request that \<open>analyzeVideo\<close> builds: the model name, the video part (payload and
  MIME type), the text part and the thinking budget.
\<close>

definition requestFor :: "'f world \<Rightarrow> EncodedMedia \<Rightarrow> request" where
  "requestFor w enc =
     \<lparr>model_name = js ''gemini-2.5-pro'',
      inline_data = base64Data enc,
      inline_mimeType = mimeType enc,
      text_part = PROMPT w,
      thinkingBudget = 32768\<rparr>"

text \<open>
  The \<open>try\<close> block of \<open>analyzeVideo\<close>. The second component is the log of the calls of
  \<open>ai.models.generateContent\<close> made so far; a call is logged whether it resolves (with
  \<open>response.text\<close>) or rejects.
\<close>

definition analyzeVideo_try ::
  "'f world \<Rightarrow> 'f \<Rightarrow> request list \<Rightarrow> (thrown + jsstring) \<times> request list" where
  "analyzeVideo_try w videoFile calls =
     (case fileToBase64 w videoFile of
        Inl e \<Rightarrow> (Inl e, calls)
      | Inr enc \<Rightarrow>
          if \<not> startsWith (mimeType enc) (js ''video/'')
          then (Inl (ErrorInstance (js ''Invalid file type. Please upload a video file.'')), calls)
          else (generateContent w (requestFor w enc), calls @ [requestFor w enc]))"

text \<open>
  \<open>analyzeVideo\<close>: the \<open>catch\<close> clause turns a caught value into a returned string. The
  result is still a sum, so that "the promise never rejects" is a statement to prove.
\<close>

definition analyzeVideo ::
  "'f world \<Rightarrow> 'f \<Rightarrow> request list \<Rightarrow> (thrown + jsstring) \<times> request list" where
  "analyzeVideo w videoFile calls =
     (case analyzeVideo_try w videoFile calls of
        (Inr response_text, calls') \<Rightarrow> (Inr response_text, calls')
      | (Inl error, calls') \<Rightarrow>
          (case error of
             ErrorInstance message \<Rightarrow> (Inr (js ''Error: '' @ message), calls')
           | OtherValue \<Rightarrow>
               (Inr (js ''An unknown error occurred during video analysis.''), calls')))"

section \<open>The caller (App.tsx)\<close>

text \<open>The state of the component \<open>App\<close>.\<close>

record 'f app_state =
  videoFile :: "'f option"
  videoPreviewUrl :: "jsstring option"
  isLoading :: bool
  analysisResult :: "jsstring option"
  error :: "jsstring option"

text \<open>\<open>e instanceof Error ? e.message : "An unknown error occurred."\<close>\<close>

definition errorMessage :: "thrown \<Rightarrow> jsstring" where
  "errorMessage e =
     (case e of ErrorInstance message \<Rightarrow> message
      | OtherValue \<Rightarrow> js ''An unknown error occurred.'')"

text \<open>
  \<open>handleAnalyzeVideo\<close>: the state after the handler has run, and the call log. In the
  \<open>try\<close> block a result that starts with \<open>Error:\<close> is thrown as \<open>new Error(result)\<close>; the
  \<open>catch\<close> clause stores the message; \<open>finally\<close> clears the loading flag.
\<close>

definition handleAnalyzeVideo ::
  "'f world \<Rightarrow> 'f app_state \<Rightarrow> request list \<Rightarrow> 'f app_state \<times> request list" where
  "handleAnalyzeVideo w st calls =
     (case videoFile st of
        None \<Rightarrow> (st\<lparr>error := Some (js ''Please select a video file first.'')\<rparr>, calls)
      | Some file \<Rightarrow>
          (let st1 = st\<lparr>isLoading := True, analysisResult := None, error := None\<rparr>;
               (outcome, calls') = analyzeVideo w file calls;
               st2 =
                 (case outcome of
                    Inl e \<Rightarrow> st1\<lparr>error := Some (errorMessage e)\<rparr>
                  | Inr result \<Rightarrow>
                      if startsWith result (js ''Error:'')
                      then st1\<lparr>error := Some (errorMessage (ErrorInstance result))\<rparr>
                      else st1\<lparr>analysisResult := Some result\<rparr>)
           in (st2\<lparr>isLoading := False\<rparr>, calls')))"

section \<open>Vocabulary of the properties\<close>

text \<open>\<open>s.indexOf(pat)\<close>, with \<open>None\<close> for \<open>-1\<close>: where \<open>pat\<close> first occurs in \<open>s\<close>.\<close>

fun indexOf :: "jsstring \<Rightarrow> jsstring \<Rightarrow> nat option" where
  "indexOf [] pat = (if startsWith [] pat then Some 0 else None)"
| "indexOf (c # cs) pat =
     (if startsWith (c # cs) pat then Some 0 else map_option Suc (indexOf cs pat))"

text \<open>\<open>s.includes(pat)\<close>: the marker occurs in the text.\<close>

definition includes_js :: "jsstring \<Rightarrow> jsstring \<Rightarrow> bool" where
  "includes_js s pat = (indexOf s pat \<noteq> None)"

text \<open>A text of white space only.\<close>

definition blank :: "jsstring \<Rightarrow> bool" where
  "blank s = list_all isWhiteSpace s"

text \<open>\<open>ls.join('\n')\<close>: a block of text made of the given lines.\<close>

fun joinLines :: "jsstring list \<Rightarrow> jsstring" where
  "joinLines [] = []"
| "joinLines [l] = l"
| "joinLines (l # l' # ls) = l @ newline # joinLines (l' # ls)"

text \<open>The row that the three cells of a line make.\<close>

definition rowOfCells :: "jsstring \<Rightarrow> TableRow" where
  "rowOfCells row =
     \<lparr>timestamp = cellsOf row ! 0, action = cellsOf row ! 1, notes' = cellsOf row ! 2\<rparr>"

section \<open>Facts about strings and matching\<close>

lemma startsWith_iff: "startsWith s p \<longleftrightarrow> (\<exists>t. s = p @ t)"
  by (induction s p rule: startsWith.induct) auto

lemma startsWith_append [simp]: "startsWith (p @ t) p"
  by (simp add: startsWith_iff)

lemma startsWith_drop: "startsWith s p \<Longrightarrow> p @ drop (length p) s = s"
  by (auto simp: startsWith_iff)

lemma anyChar_True [simp]: "anyChar c"
  by (simp add: anyChar_def)

lemma lazy_star_any: "lazy_star anyChar lit s = map_option (\<lambda>n. take n s) (indexOf s lit)"
  by (induction s) (auto simp: option.map_comp comp_def)

lemma indexOf_Some_append:
  "indexOf s pat = Some n \<Longrightarrow> \<exists>t. s = take n s @ pat @ t \<and> n \<le> length s"
proof (induction s arbitrary: n)
  case Nil
  then show ?case by (auto simp: startsWith_iff split: if_splits)
next
  case (Cons c cs)
  show ?case
  proof (cases "startsWith (c # cs) pat")
    case True
    with Cons.prems show ?thesis by (auto simp: startsWith_iff)
  next
    case False
    with Cons.prems obtain k where k: "indexOf cs pat = Some k" "n = Suc k" by auto
    from Cons.IH[OF k(1)] k(2) show ?thesis by auto
  qed
qed

lemma indexOf_None_iff: "indexOf s pat = None \<longleftrightarrow> (\<nexists>u v. s = u @ pat @ v)"
proof (induction s)
  case Nil
  then show ?case by (auto simp: startsWith_iff)
next
  case (Cons c cs)
  show ?case
  proof (cases "startsWith (c # cs) pat")
    case True
    then obtain t where "c # cs = pat @ t" by (auto simp: startsWith_iff)
    then have "c # cs = [] @ pat @ t" by simp
    with True show ?thesis by (metis indexOf.simps(2) option.distinct(1))
  next
    case False
    have "(\<exists>u v. c # cs = u @ pat @ v) \<longleftrightarrow> (\<exists>u v. cs = u @ pat @ v)"
    proof
      assume "\<exists>u v. c # cs = u @ pat @ v"
      then obtain u v where uv: "c # cs = u @ pat @ v" by blast
      show "\<exists>u v. cs = u @ pat @ v"
      proof (cases u)
        case Nil
        with uv False show ?thesis by (auto simp: startsWith_iff)
      next
        case (Cons a u')
        with uv show ?thesis by auto
      qed
    next
      assume "\<exists>u v. cs = u @ pat @ v"
      then obtain u v where "cs = u @ pat @ v" by blast
      then have "c # cs = (c # u) @ pat @ v" by simp
      then show "\<exists>u v. c # cs = u @ pat @ v" by blast
    qed
    with False Cons.IH show ?thesis by simp
  qed
qed

lemma regex_search_None:
  assumes "\<And>s. \<not> startsWith s A \<Longrightarrow> m s = None" and "indexOf s A = None"
  shows "regex_search m s = None"
  using assms(2)
proof (induction s)
  case Nil
  then show ?case using assms(1)[of "[]"] by (auto split: if_splits)
next
  case (Cons c cs)
  then show ?case using assms(1)[of "c # cs"] by (auto split: if_splits)
qed

lemma regex_search_first:
  assumes "\<And>s. \<not> startsWith s A \<Longrightarrow> m s = None"
    and "indexOf s A = Some n" and "m (drop n s) = Some cap"
  shows "regex_search m s = Some cap"
  using assms(2,3)
proof (induction s arbitrary: n)
  case Nil
  then show ?case by (auto split: if_splits)
next
  case (Cons c cs)
  show ?case
  proof (cases "startsWith (c # cs) A")
    case True
    with Cons.prems show ?thesis by simp
  next
    case False
    with Cons.prems obtain k where k: "indexOf cs A = Some k" "n = Suc k" by auto
    from False have "m (c # cs) = None" by (rule assms(1))
    moreover from Cons.IH[OF k(1)] Cons.prems(2) k(2) have "regex_search m cs = Some cap" by simp
    ultimately show ?thesis by simp
  qed
qed

lemma trim_eq_Nil_iff: "trim s = [] \<longleftrightarrow> (\<forall>c\<in>set s. isWhiteSpace c)"
proof
  assume "trim s = []"
  then have *: "\<forall>c\<in>set (dropWhile isWhiteSpace s). isWhiteSpace c"
    by (simp add: trim_def)
  have "dropWhile isWhiteSpace s = []"
  proof (rule ccontr)
    assume ne: "dropWhile isWhiteSpace s \<noteq> []"
    then have "\<not> isWhiteSpace (hd (dropWhile isWhiteSpace s))" by (rule hd_dropWhile)
    moreover from ne have "hd (dropWhile isWhiteSpace s) \<in> set (dropWhile isWhiteSpace s)" by simp
    ultimately show False using * by blast
  qed
  then show "\<forall>c\<in>set s. isWhiteSpace c" by simp
next
  assume "\<forall>c\<in>set s. isWhiteSpace c"
  then have "dropWhile isWhiteSpace s = []" by simp
  then show "trim s = []" by (simp only: trim_def rev.simps dropWhile.simps)
qed

lemma split_no_sep: "sep \<notin> set l \<Longrightarrow> split sep l = [l]"
  by (induction l) auto

lemma split_append_sep: "sep \<notin> set l \<Longrightarrow> split sep (l @ sep # r) = l # split sep r"
  by (induction l) auto

lemma split_joinLines:
  "ls \<noteq> [] \<Longrightarrow> \<forall>l\<in>set ls. newline \<notin> set l \<Longrightarrow> split newline (joinLines ls) = ls"
  by (induction ls rule: joinLines.induct) (auto simp: split_no_sep split_append_sep)

lemma indexOf_startsWith: "indexOf s pat = Some n \<Longrightarrow> startsWith (drop n s) pat"
proof (induction s arbitrary: n)
  case Nil
  then show ?case by (auto split: if_splits)
next
  case (Cons c cs)
  then show ?case by (cases "startsWith (c # cs) pat") auto
qed

lemma lazy_between_at_None: "\<not> startsWith s A \<Longrightarrow> lazy_between_at A cls B s = None"
  by (simp add: lazy_between_at_def)

lemma greedy_after_at_None: "\<not> startsWith s A \<Longrightarrow> greedy_after_at A s = None"
  by (simp add: greedy_after_at_def)

lemma lazy_between_first:
  assumes "indexOf s A = Some n" and "indexOf (drop (n + length A) s) B = Some k"
  shows "regex_search (lazy_between_at A anyChar B) s = Some (take k (drop (n + length A) s))"
proof (rule regex_search_first[where A = A and n = n])
  show "\<And>s. \<not> startsWith s A \<Longrightarrow> lazy_between_at A anyChar B s = None"
    by (rule lazy_between_at_None)
  show "indexOf s A = Some n" by fact
  have "startsWith (drop n s) A" using assms(1) by (rule indexOf_startsWith)
  moreover have "drop (length A) (drop n s) = drop (n + length A) s" by (simp add: add.commute)
  ultimately show "lazy_between_at A anyChar B (drop n s) = Some (take k (drop (n + length A) s))"
    using assms(2) by (simp add: lazy_between_at_def lazy_star_any)
qed

lemma lazy_between_absent:
  "indexOf s A = None \<Longrightarrow> regex_search (lazy_between_at A cls B) s = None"
  by (rule regex_search_None[where A = A]) (simp_all add: lazy_between_at_None)

lemma greedy_after_first:
  assumes "indexOf s A = Some n"
  shows "regex_search (greedy_after_at A) s = Some (drop (n + length A) s)"
proof (rule regex_search_first[where A = A and n = n])
  show "\<And>s. \<not> startsWith s A \<Longrightarrow> greedy_after_at A s = None"
    by (rule greedy_after_at_None)
  show "indexOf s A = Some n" by fact
  have "startsWith (drop n s) A" using assms by (rule indexOf_startsWith)
  then show "greedy_after_at A (drop n s) = Some (drop (n + length A) s)"
    by (simp add: greedy_after_at_def add.commute)
qed

lemma greedy_after_absent:
  "indexOf s A = None \<Longrightarrow> regex_search (greedy_after_at A) s = None"
  by (rule regex_search_None[where A = A]) (simp_all add: greedy_after_at_None)

text \<open>The fields of a returned object are the three extracted values.\<close>

lemma parse_fields:
  assumes "parseAnalysisResult text = Some r"
  shows "globalCohesionBlock r = globalCohesionBlockOf text"
    and "sceneBreakdown r = sceneBreakdownOf text"
    and "technicalAnalysis r = technicalAnalysisOf text"
  using assms by (auto simp: parseAnalysisResult_def Let_def split: if_splits)

lemma parse_Some_iff:
  "(\<exists>r. parseAnalysisResult text = Some r) \<longleftrightarrow>
     globalCohesionBlockOf text \<noteq> [] \<or> sceneBreakdownOf text \<noteq> [] \<or> technicalAnalysisOf text \<noteq> []"
  by (simp add: parseAnalysisResult_def Let_def)

lemma rowsOfLines_Nil [simp]: "rowsOfLines [] = []"
  by (simp add: rowsOfLines_def)

lemma rowsOfLines_Cons:
  "rowsOfLines (l # ls) = (case rowOf l of None \<Rightarrow> rowsOfLines ls | Some r \<Rightarrow> r # rowsOfLines ls)"
  by (simp add: rowsOfLines_def split: option.splits)

lemma rowsOfLines_append: "rowsOfLines (xs @ ys) = rowsOfLines xs @ rowsOfLines ys"
  by (simp add: rowsOfLines_def)

lemma rowOf_None_iff: "rowOf l = None \<longleftrightarrow> length (cellsOf l) \<noteq> 3"
  by (simp add: rowOf_def Let_def)

lemma rowOf_Some:
  "length (cellsOf l) = 3 \<Longrightarrow>
     rowOf l = Some \<lparr>timestamp = cellsOf l ! 0, action = cellsOf l ! 1, notes' = cellsOf l ! 2\<rparr>"
  by (simp add: rowOf_def Let_def)

lemma rowsOfLines_valid:
  "\<forall>l\<in>set ls. length (cellsOf l) = 3 \<Longrightarrow>
     rowsOfLines ls =
       map (\<lambda>l. \<lparr>timestamp = cellsOf l ! 0, action = cellsOf l ! 1, notes' = cellsOf l ! 2\<rparr>) ls"
  by (induction ls) (simp_all add: rowsOfLines_Cons rowOf_Some)

lemma cellsOf_nonempty: "c \<in> set (cellsOf l) \<Longrightarrow> c \<noteq> []"
  by (simp add: cellsOf_def)

lemma rowOf_fields_nonempty:
  assumes "rowOf l = Some r"
  shows "timestamp r \<noteq> [] \<and> action r \<noteq> [] \<and> notes' r \<noteq> []"
proof -
  from assms have len: "length (cellsOf l) = 3" and
    r: "r = \<lparr>timestamp = cellsOf l ! 0, action = cellsOf l ! 1, notes' = cellsOf l ! 2\<rparr>"
    by (auto simp: rowOf_def Let_def split: if_splits)
  from len have "cellsOf l ! 0 \<in> set (cellsOf l)" "cellsOf l ! 1 \<in> set (cellsOf l)"
    "cellsOf l ! 2 \<in> set (cellsOf l)" by simp_all
  then show ?thesis using r by (simp add: cellsOf_nonempty)
qed

lemma rowsOfLines_mem: "r \<in> set (rowsOfLines ls) \<Longrightarrow> \<exists>l\<in>set ls. rowOf l = Some r"
  by (induction ls) (auto simp: rowsOfLines_Cons split: option.splits)

lemma rowsOfLines_rowOfCells:
  "\<forall>l\<in>set ls. length (cellsOf l) = 3 \<Longrightarrow> rowsOfLines ls = map rowOfCells ls"
  by (simp add: rowsOfLines_valid rowOfCells_def)

lemma sceneBreakdownOf_joinLines:
  assumes "tableString text = joinLines (l1 # l2 # ls)"
    and "\<forall>l\<in>set (l1 # l2 # ls). newline \<notin> set l"
  shows "sceneBreakdownOf text = rowsOfLines ls"
proof -
  have "split newline (joinLines (l1 # l2 # ls)) = l1 # l2 # ls"
    using assms(2) by (intro split_joinLines) simp_all
  then show ?thesis
    by (simp add: sceneBreakdownOf_def sceneBreakdownOfTable_def assms(1))
qed

lemma indexOf_append_first:
  assumes "indexOf (pre @ rest) pat = Some (length pre)"
  shows "startsWith rest pat"
  using indexOf_startsWith[OF assms] by simp

lemma globalCohesionBlockOf_first:
  assumes "indexOf text GLOBAL_COHESION_BLOCK = Some (length pre)"
    and "text = pre @ GLOBAL_COHESION_BLOCK @ rest"
    and "indexOf rest DETAILED_SCENE_BREAKDOWN_TABLE = Some k"
  shows "globalCohesionBlockOf text = trim (take k rest)"
proof -
  have "drop (length pre + length GLOBAL_COHESION_BLOCK) text = rest"
    by (simp add: assms(2))
  then have "globalCohesionBlockMatch text = Some (take k rest)"
    unfolding globalCohesionBlockMatch_def
    using lazy_between_first[OF assms(1), of DETAILED_SCENE_BREAKDOWN_TABLE k] assms(3) by simp
  then show ?thesis by (simp add: globalCohesionBlockOf_def)
qed

lemma technicalAnalysisOf_first:
  assumes "indexOf text TECHNICAL_STYLE_ANALYSIS = Some (length pre)"
    and "text = pre @ TECHNICAL_STYLE_ANALYSIS @ rest"
  shows "technicalAnalysisOf text = trim rest"
proof -
  have "drop (length pre + length TECHNICAL_STYLE_ANALYSIS) text = rest"
    by (simp add: assms(2))
  then have "technicalAnalysisMatch text = Some rest"
    unfolding technicalAnalysisMatch_def
    using greedy_after_first[OF assms(1)] by simp
  then show ?thesis by (simp add: technicalAnalysisOf_def)
qed

lemma trim_nonblank: "\<not> blank s \<Longrightarrow> trim s \<noteq> []"
  by (simp add: trim_eq_Nil_iff blank_def list_all_iff)

lemma regex_search_SomeD:
  "regex_search m s = Some cap \<Longrightarrow> \<exists>j\<le>length s. m (drop j s) = Some cap"
proof (induction s)
  case Nil
  then show ?case by simp
next
  case (Cons c cs)
  show ?case
  proof (cases "m (c # cs)")
    case None
    with Cons.prems have "regex_search m cs = Some cap" by simp
    then obtain j where "j \<le> length cs" "m (drop j cs) = Some cap" using Cons.IH by blast
    then have "Suc j \<le> length (c # cs) \<and> m (drop (Suc j) (c # cs)) = Some cap" by simp
    then show ?thesis by blast
  next
    case (Some a)
    with Cons.prems have "m (drop 0 (c # cs)) = Some cap" by simp
    then show ?thesis by blast
  qed
qed

lemma indexOf_least:
  "indexOf s pat = Some n \<Longrightarrow> startsWith (drop j s) pat \<Longrightarrow> j \<le> length s \<Longrightarrow> n \<le> j"
proof (induction s arbitrary: n j)
  case Nil
  then show ?case by (auto split: if_splits)
next
  case (Cons c cs)
  show ?case
  proof (cases "startsWith (c # cs) pat")
    case True
    with Cons.prems show ?thesis by simp
  next
    case False
    with Cons.prems obtain k where k: "indexOf cs pat = Some k" "n = Suc k" by auto
    from False Cons.prems(2) obtain j' where j': "j = Suc j'" by (cases j) auto
    with Cons.prems have "startsWith (drop j' cs) pat" "j' \<le> length cs" by simp_all
    from Cons.IH[OF k(1) this] k(2) j' show ?thesis by simp
  qed
qed

lemma indexOf_drop_mono:
  assumes "indexOf (drop j s) pat \<noteq> None"
  shows "indexOf s pat \<noteq> None"
proof -
  from assms obtain u v where "drop j s = u @ pat @ v" by (auto simp: indexOf_None_iff)
  then have "s = (take j s @ u) @ pat @ v" by (metis append_take_drop_id append.assoc)
  then show ?thesis unfolding indexOf_None_iff by blast
qed

text \<open>
  The search loop and the lazy group together: the match starts at the first occurrence
  of \<open>A\<close> and the group ends at the first occurrence of \<open>B\<close> after it; when no \<open>B\<close>
  follows the first \<open>A\<close>, no later start index matches either.
\<close>

lemma lazy_between_search:
  "regex_search (lazy_between_at A anyChar B) s =
     (case indexOf s A of
        None \<Rightarrow> None
      | Some n \<Rightarrow> map_option (\<lambda>k. take k (drop (n + length A) s))
                    (indexOf (drop (n + length A) s) B))"
proof (cases "indexOf s A")
  case None
  then show ?thesis by (simp add: lazy_between_absent)
next
  case (Some n)
  show ?thesis
  proof (cases "indexOf (drop (n + length A) s) B")
    case (Some k)
    with \<open>indexOf s A = Some n\<close> show ?thesis by (simp add: lazy_between_first)
  next
    case None
    have "regex_search (lazy_between_at A anyChar B) s = None"
    proof (rule ccontr)
      assume "regex_search (lazy_between_at A anyChar B) s \<noteq> None"
      then obtain cap where "regex_search (lazy_between_at A anyChar B) s = Some cap" by auto
      then obtain j where j: "j \<le> length s" "lazy_between_at A anyChar B (drop j s) = Some cap"
        using regex_search_SomeD by blast
      then have sw: "startsWith (drop j s) A"
        and ls: "lazy_star anyChar B (drop (length A) (drop j s)) = Some cap"
        by (auto simp: lazy_between_at_def split: if_splits)
      from indexOf_least[OF \<open>indexOf s A = Some n\<close> sw j(1)] have "n \<le> j" .
      then have "drop (length A) (drop j s) = drop (j - n) (drop (n + length A) s)"
        by (simp add: add.commute)
      with ls have "indexOf (drop (j - n) (drop (n + length A) s)) B \<noteq> None"
        by (auto simp: lazy_star_any)
      then have "indexOf (drop (n + length A) s) B \<noteq> None" by (rule indexOf_drop_mono)
      with None show False by simp
    qed
    with None \<open>indexOf s A = Some n\<close> show ?thesis by simp
  qed
qed

lemma greedy_after_search:
  "regex_search (greedy_after_at A) s = map_option (\<lambda>n. drop (n + length A) s) (indexOf s A)"
  by (cases "indexOf s A") (simp_all add: greedy_after_absent greedy_after_first)

lemma tableString_first:
  assumes "indexOf text DETAILED_SCENE_BREAKDOWN_TABLE = Some (length pre)"
    and "text = pre @ DETAILED_SCENE_BREAKDOWN_TABLE @ rest"
    and "indexOf rest TECHNICAL_STYLE_ANALYSIS = Some k"
  shows "tableString text = trim (take k rest)"
proof -
  have "drop (length pre + length DETAILED_SCENE_BREAKDOWN_TABLE) text = rest"
    by (simp add: assms(2))
  then have "tableMatch text = Some (take k rest)"
    unfolding tableMatch_def
    using lazy_between_first[OF assms(1), of TECHNICAL_STYLE_ANALYSIS k] assms(3) by simp
  then show ?thesis by (simp add: tableString_def)
qed

lemma indexOf_Some_iff:
  "indexOf s pat = Some n \<longleftrightarrow>
     n \<le> length s \<and> startsWith (drop n s) pat \<and> (\<forall>j<n. \<not> startsWith (drop j s) pat)"
proof
  assume a: "indexOf s pat = Some n"
  then have "n \<le> length s" using indexOf_Some_append by blast
  moreover have "startsWith (drop n s) pat" using a by (rule indexOf_startsWith)
  moreover have "\<not> startsWith (drop j s) pat" if "j < n" for j
  proof
    assume "startsWith (drop j s) pat"
    moreover from that \<open>n \<le> length s\<close> have "j \<le> length s" by simp
    ultimately have "n \<le> j" using indexOf_least[OF a] by blast
    with that show False by simp
  qed
  ultimately show "n \<le> length s \<and> startsWith (drop n s) pat \<and> (\<forall>j<n. \<not> startsWith (drop j s) pat)"
    by blast
next
  assume r: "n \<le> length s \<and> startsWith (drop n s) pat \<and> (\<forall>j<n. \<not> startsWith (drop j s) pat)"
  then obtain t where "drop n s = pat @ t" by (auto simp: startsWith_iff)
  then have "s = take n s @ pat @ t" by (metis append_take_drop_id)
  then have "indexOf s pat \<noteq> None" unfolding indexOf_None_iff by blast
  then obtain k where k: "indexOf s pat = Some k" by auto
  then have kl: "k \<le> length s" and ks: "startsWith (drop k s) pat"
    using indexOf_Some_append indexOf_startsWith by blast+
  from indexOf_least[OF k] r have "k \<le> n" by blast
  moreover have "\<not> k < n" using r ks by blast
  ultimately show "indexOf s pat = Some n" using k by simp
qed

lemma parse_sceneBreakdown_nonempty:
  assumes "sceneBreakdownOf text = rows" and "rows \<noteq> []"
  shows "\<exists>r. parseAnalysisResult text = Some r \<and> sceneBreakdown r = rows"
proof -
  from assms have "sceneBreakdownOf text \<noteq> []" by simp
  then obtain r where r: "parseAnalysisResult text = Some r"
    using parse_Some_iff[of "text"] by blast
  with assms(1) show ?thesis by (simp add: parse_fields(2))
qed

lemma parse_other_field_nonempty:
  assumes "globalCohesionBlockOf text \<noteq> [] \<or> technicalAnalysisOf text \<noteq> []"
  shows "\<exists>r. parseAnalysisResult text = Some r \<and> sceneBreakdown r = sceneBreakdownOf text"
proof -
  from assms obtain r where r: "parseAnalysisResult text = Some r"
    using parse_Some_iff[of "text"] by blast
  then show ?thesis by (simp add: parse_fields(2))
qed

lemma parse_eq:
  "parseAnalysisResult text =
     (if globalCohesionBlockOf text = [] \<and> sceneBreakdownOf text = [] \<and> technicalAnalysisOf text = []
      then None
      else Some \<lparr>globalCohesionBlock = globalCohesionBlockOf text,
                  sceneBreakdown = sceneBreakdownOf text,
                  technicalAnalysis = technicalAnalysisOf text\<rparr>)"
  by (simp add: parseAnalysisResult_def Let_def)

text \<open>Unfolding sets for evaluating the functions on concrete strings.\<close>

lemmas marker_defs = GLOBAL_COHESION_BLOCK_def DETAILED_SCENE_BREAKDOWN_TABLE_def
  TECHNICAL_STYLE_ANALYSIS_def

lemmas string_defs = js_def trim_def isWhiteSpace_def newline_def pipe_def

lemmas parser_defs = parseAnalysisResult_def globalCohesionBlockOf_def globalCohesionBlockMatch_def
  sceneBreakdownOf_def sceneBreakdownOfTable_def tableString_def tableMatch_def
  rowsOfLines_def rowOf_def cellsOf_def technicalAnalysisOf_def technicalAnalysisMatch_def
  lazy_between_at_def greedy_after_at_def anyChar_def Let_def

section \<open>Facts about the analysis client and its caller\<close>

text \<open>
  \<open>analyzeVideo\<close> never rejects. A caught \<open>Error\<close> comes back as \<open>Error: \<close> followed by its
  message; any other caught value comes back as a fixed sentence without that prefix.
\<close>

lemma analyzeVideo_never_rejects: "\<exists>s. fst (analyzeVideo w file calls) = Inr s"
  by (auto simp: analyzeVideo_def split: prod.splits sum.splits thrown.splits)

lemma analyzeVideo_Error_prefixed:
  "analyzeVideo_try w file calls = (Inl (ErrorInstance message), calls') \<Longrightarrow>
     analyzeVideo w file calls = (Inr (js ''Error: '' @ message), calls')"
  by (simp add: analyzeVideo_def)

lemma analyzeVideo_other_unprefixed:
  "analyzeVideo_try w file calls = (Inl OtherValue, calls') \<Longrightarrow>
     analyzeVideo w file calls
       = (Inr (js ''An unknown error occurred during video analysis.''), calls')"
  by (simp add: analyzeVideo_def)

lemma analyzeVideo_success:
  "analyzeVideo_try w file calls = (Inr s, calls') \<Longrightarrow> analyzeVideo w file calls = (Inr s, calls')"
  by (simp add: analyzeVideo_def)

lemma analyzeVideo_failure:
  assumes "analyzeVideo_try w file calls = (Inl e, calls')"
  shows "analyzeVideo w file calls =
           (Inr (case e of ErrorInstance message \<Rightarrow> js ''Error: '' @ message
                 | OtherValue \<Rightarrow> js ''An unknown error occurred during video analysis.''), calls')"
  using assms by (simp add: analyzeVideo_def split: thrown.splits)

lemma analyzeVideo_Error_startsWith:
  assumes "analyzeVideo_try w file calls = (Inl (ErrorInstance message), calls')"
  shows "\<exists>s. analyzeVideo w file calls = (Inr s, calls') \<and> startsWith s (js ''Error: '')"
  using analyzeVideo_Error_prefixed[OF assms] by simp

lemma fileToBase64_read_error:
  "readAsDataURL w file = OnError \<Longrightarrow> fileToBase64 w file = Inl OtherValue"
  by (simp add: fileToBase64_def)

lemma fileToBase64_malformed:
  assumes "readAsDataURL w file = OnLoad result" and "length (split comma result) \<noteq> 2"
  shows "fileToBase64 w file = Inl (ErrorInstance (js ''Invalid data URL format''))"
  using assms by (simp add: fileToBase64_def)

lemma analyzeVideo_read_error:
  assumes "readAsDataURL w file = OnError"
  shows "analyzeVideo w file calls
           = (Inr (js ''An unknown error occurred during video analysis.''), calls)"
  by (rule analyzeVideo_other_unprefixed)
     (simp add: analyzeVideo_try_def fileToBase64_read_error[OF assms])

lemma analyzeVideo_video_call:
  assumes "fileToBase64 w file = Inr enc" and "startsWith (mimeType enc) (js ''video/'')"
  shows "analyzeVideo_try w file calls
           = (generateContent w (requestFor w enc), calls @ [requestFor w enc])"
  using assms by (simp add: analyzeVideo_try_def)

lemma handle_result:
  assumes "videoFile st = Some file" and "analyzeVideo w file calls = (Inr s, calls')"
  shows "fst (handleAnalyzeVideo w st calls) =
     (if startsWith s (js ''Error:'')
      then st\<lparr>isLoading := False, analysisResult := None, error := Some s\<rparr>
      else st\<lparr>isLoading := False, analysisResult := Some s, error := None\<rparr>)"
  using assms by (simp add: handleAnalyzeVideo_def errorMessage_def)

lemmas client_defs = analyzeVideo_def analyzeVideo_try_def fileToBase64_def mimeMatch_def
  requestFor_def lazy_between_at_def isLineTerminator_def comma_def js_def Let_def

section \<open>Properties of the response parser\<close>

text \<open>
  C4. The scenario of the specification: the text with the three sections, a table of a
  header, a separator and one data row, parses to the cohesion block \<open>Characters: a dog\<close>,
  the single row (\<open>00:00-00:05\<close>, \<open>Dog runs\<close>, \<open>Wide shot\<close>) and the technical analysis
  \<open>Documentary style.\<close>
\<close>

theorem scenario_parse:
  "parseAnalysisResult (js ''GLOBAL COHESION BLOCK\<newline>Characters: a dog\<newline>DETAILED SCENE BREAKDOWN TABLE\<newline>| A | B | C |\<newline>|---|---|---|\<newline>| 00:00-00:05 | Dog runs | Wide shot |\<newline>TECHNICAL STYLE ANALYSIS\<newline>Documentary style.'')
   = Some \<lparr>globalCohesionBlock = js ''Characters: a dog'',
            sceneBreakdown = [\<lparr>timestamp = js ''00:00-00:05'', action = js ''Dog runs'', notes' = js ''Wide shot''\<rparr>],
            technicalAnalysis = js ''Documentary style.''\<rparr>"
  by (simp add: parseAnalysisResult_def globalCohesionBlockOf_def globalCohesionBlockMatch_def
      sceneBreakdownOf_def sceneBreakdownOfTable_def tableString_def tableMatch_def
      rowsOfLines_def rowOf_def cellsOf_def technicalAnalysisOf_def technicalAnalysisMatch_def
      lazy_between_at_def greedy_after_at_def anyChar_def trim_def isWhiteSpace_def
      newline_def pipe_def GLOBAL_COHESION_BLOCK_def DETAILED_SCENE_BREAKDOWN_TABLE_def
      TECHNICAL_STYLE_ANALYSIS_def js_def Let_def)

text \<open>
  C2, as stated, fails on a text in which a marker occurs more than once. The text below
  contains the three markers in order (its only \<open>GLOBAL COHESION BLOCK\<close>, its only
  \<open>DETAILED SCENE BREAKDOWN TABLE\<close>, then \<open>TECHNICAL STYLE ANALYSIS\<close>), with \<open>x\<close> between the
  first two and \<open>y\<close> after the third, but it also opens with \<open>TECHNICAL STYLE ANALYSIS\<close>.
  The third pattern matches at the first occurrence of its marker, so \<open>technicalAnalysis\<close>
  is everything after the opening line, not \<open>y\<close>.
\<close>

theorem blocks_recovered_counterexample:
  "js ''TECHNICAL STYLE ANALYSIS\<newline>GLOBAL COHESION BLOCK\<newline>x\<newline>DETAILED SCENE BREAKDOWN TABLE\<newline>TECHNICAL STYLE ANALYSIS\<newline>y''
     = js ''TECHNICAL STYLE ANALYSIS\<newline>'' @ GLOBAL_COHESION_BLOCK @ js ''\<newline>x\<newline>''
         @ DETAILED_SCENE_BREAKDOWN_TABLE @ js ''\<newline>'' @ TECHNICAL_STYLE_ANALYSIS @ js ''\<newline>y''
   \<and> \<not> blank (js ''\<newline>x\<newline>'') \<and> \<not> blank (js ''\<newline>y'')
   \<and> parseAnalysisResult
        (js ''TECHNICAL STYLE ANALYSIS\<newline>GLOBAL COHESION BLOCK\<newline>x\<newline>DETAILED SCENE BREAKDOWN TABLE\<newline>TECHNICAL STYLE ANALYSIS\<newline>y'')
       = Some \<lparr>globalCohesionBlock = js ''x'', sceneBreakdown = [],
                technicalAnalysis = js ''GLOBAL COHESION BLOCK\<newline>x\<newline>DETAILED SCENE BREAKDOWN TABLE\<newline>TECHNICAL STYLE ANALYSIS\<newline>y''\<rparr>
   \<and> js ''GLOBAL COHESION BLOCK\<newline>x\<newline>DETAILED SCENE BREAKDOWN TABLE\<newline>TECHNICAL STYLE ANALYSIS\<newline>y''
       \<noteq> trim (js ''\<newline>y'')"
  by (simp add: parser_defs string_defs marker_defs blank_def)

text \<open>
  C2 (amended). Let the text be \<open>pre\<close>, \<open>GLOBAL COHESION BLOCK\<close>, \<open>g\<close>,
  \<open>DETAILED SCENE BREAKDOWN TABLE\<close>, \<open>t\<close>, \<open>TECHNICAL STYLE ANALYSIS\<close>, \<open>a\<close> in this order, where
  these occurrences are the ones the patterns find: the first \<open>GLOBAL COHESION BLOCK\<close> of the
  text, the first \<open>DETAILED SCENE BREAKDOWN TABLE\<close> after it, and the first
  \<open>TECHNICAL STYLE ANALYSIS\<close> of the whole text. If \<open>g\<close> and \<open>a\<close> are not blank, then
  \<open>parseAnalysisResult\<close> returns a result whose \<open>globalCohesionBlock\<close> is \<open>g\<close> trimmed and
  whose \<open>technicalAnalysis\<close> is \<open>a\<close> trimmed, both non-empty.
\<close>

theorem blocks_recovered_at_first_occurrences:
  assumes "text = pre @ GLOBAL_COHESION_BLOCK @ g @ DETAILED_SCENE_BREAKDOWN_TABLE @ t
                    @ TECHNICAL_STYLE_ANALYSIS @ a"
    and "indexOf text GLOBAL_COHESION_BLOCK = Some (length pre)"
    and "indexOf (g @ DETAILED_SCENE_BREAKDOWN_TABLE @ t @ TECHNICAL_STYLE_ANALYSIS @ a)
           DETAILED_SCENE_BREAKDOWN_TABLE = Some (length g)"
    and "indexOf text TECHNICAL_STYLE_ANALYSIS
           = Some (length (pre @ GLOBAL_COHESION_BLOCK @ g @ DETAILED_SCENE_BREAKDOWN_TABLE @ t))"
    and "\<not> blank g" and "\<not> blank a"
  shows "\<exists>r. parseAnalysisResult text = Some r
           \<and> globalCohesionBlock r = trim g \<and> technicalAnalysis r = trim a
           \<and> globalCohesionBlock r \<noteq> [] \<and> technicalAnalysis r \<noteq> []"
proof -
  have g: "globalCohesionBlockOf text = trim g"
    using globalCohesionBlockOf_first[OF assms(2) assms(1) assms(3)] by simp
  have "text = (pre @ GLOBAL_COHESION_BLOCK @ g @ DETAILED_SCENE_BREAKDOWN_TABLE @ t)
                 @ TECHNICAL_STYLE_ANALYSIS @ a"
    by (simp add: assms(1))
  then have a: "technicalAnalysisOf text = trim a"
    using technicalAnalysisOf_first[OF assms(4)] by blast
  have ne: "trim g \<noteq> []" "trim a \<noteq> []"
    using assms(5,6) by (simp_all add: trim_nonblank)
  with g obtain r where r: "parseAnalysisResult text = Some r"
    using parse_Some_iff[of "text"] by auto
  with g a ne show ?thesis by (simp add: parse_fields)
qed

theorem blocks_recovered_at_first_occurrences_witness:
  "\<exists>r. parseAnalysisResult
          (js ''# GLOBAL COHESION BLOCK g DETAILED SCENE BREAKDOWN TABLE t TECHNICAL STYLE ANALYSIS a'')
        = Some r
      \<and> globalCohesionBlock r = js ''g'' \<and> technicalAnalysis r = js ''a''"
proof -
  have h1: "js ''# GLOBAL COHESION BLOCK g DETAILED SCENE BREAKDOWN TABLE t TECHNICAL STYLE ANALYSIS a''
          = js ''# '' @ GLOBAL_COHESION_BLOCK @ js '' g '' @ DETAILED_SCENE_BREAKDOWN_TABLE @ js '' t ''
              @ TECHNICAL_STYLE_ANALYSIS @ js '' a''"
    by (simp add: js_def marker_defs)
  have h2: "indexOf (js ''# GLOBAL COHESION BLOCK g DETAILED SCENE BREAKDOWN TABLE t TECHNICAL STYLE ANALYSIS a'')
              GLOBAL_COHESION_BLOCK = Some (length (js ''# ''))"
    by (simp add: js_def marker_defs)
  have h3: "indexOf (js '' g '' @ DETAILED_SCENE_BREAKDOWN_TABLE @ js '' t '' @ TECHNICAL_STYLE_ANALYSIS @ js '' a'')
              DETAILED_SCENE_BREAKDOWN_TABLE = Some (length (js '' g ''))"
    by (simp add: js_def marker_defs)
  have h4: "indexOf (js ''# GLOBAL COHESION BLOCK g DETAILED SCENE BREAKDOWN TABLE t TECHNICAL STYLE ANALYSIS a'')
              TECHNICAL_STYLE_ANALYSIS
            = Some (length (js ''# '' @ GLOBAL_COHESION_BLOCK @ js '' g '' @ DETAILED_SCENE_BREAKDOWN_TABLE @ js '' t ''))"
    by (simp add: js_def marker_defs)
  have h5: "\<not> blank (js '' g '')" by (simp add: blank_def js_def isWhiteSpace_def)
  have h6: "\<not> blank (js '' a'')" by (simp add: blank_def js_def isWhiteSpace_def)
  have t: "trim (js '' g '') = js ''g''" "trim (js '' a'') = js ''a''"
    by (simp_all add: string_defs)
  from blocks_recovered_at_first_occurrences[OF h1 h2 h3 h4 h5 h6] t
  show ?thesis by auto
qed

text \<open>
  C3. If the table block (the trimmed text that the second pattern captures) is a header
  line, a separator line and then \<open>N\<close> lines, each with exactly three non-empty trimmed
  cells between its pipes, then the extracted \<open>sceneBreakdown\<close> has exactly \<open>N\<close> rows, in
  the order of the lines, each made of the three trimmed cells of its line; this is the
  \<open>sceneBreakdown\<close> of every returned object, and an object is returned when \<open>N > 0\<close>.
\<close>

theorem table_rows_in_order:
  assumes "tableString text = joinLines (header # separator # rows)"
    and "\<forall>l\<in>set (header # separator # rows). newline \<notin> set l"
    and "\<forall>row\<in>set rows. length (cellsOf row) = 3"
  shows "sceneBreakdownOf text = map rowOfCells rows
       \<and> length (sceneBreakdownOf text) = length rows
       \<and> (\<forall>r. parseAnalysisResult text = Some r \<longrightarrow> sceneBreakdown r = map rowOfCells rows)
       \<and> (rows \<noteq> [] \<longrightarrow> (\<exists>r. parseAnalysisResult text = Some r))"
proof -
  have sb: "sceneBreakdownOf text = map rowOfCells rows"
    using sceneBreakdownOf_joinLines[OF assms(1,2)] rowsOfLines_rowOfCells[OF assms(3)] by simp
  moreover have "\<forall>r. parseAnalysisResult text = Some r \<longrightarrow> sceneBreakdown r = map rowOfCells rows"
    using sb by (simp add: parse_fields(2))
  moreover have "rows \<noteq> [] \<longrightarrow> (\<exists>r. parseAnalysisResult text = Some r)"
    using sb by (simp add: parse_Some_iff)
  ultimately show ?thesis by simp
qed

theorem table_rows_in_order_witness:
  "sceneBreakdownOf
     (js ''DETAILED SCENE BREAKDOWN TABLE\<newline>|T|A|N|\<newline>|-|-|-|\<newline>| 0:00 | run | wide |\<newline>| 0:05 | sit | close |\<newline>TECHNICAL STYLE ANALYSIS'')
   = [\<lparr>timestamp = js ''0:00'', action = js ''run'', notes' = js ''wide''\<rparr>,
      \<lparr>timestamp = js ''0:05'', action = js ''sit'', notes' = js ''close''\<rparr>]"
proof -
  have h1: "tableString
     (js ''DETAILED SCENE BREAKDOWN TABLE\<newline>|T|A|N|\<newline>|-|-|-|\<newline>| 0:00 | run | wide |\<newline>| 0:05 | sit | close |\<newline>TECHNICAL STYLE ANALYSIS'')
     = joinLines (js ''|T|A|N|'' # js ''|-|-|-|'' # [js ''| 0:00 | run | wide |'', js ''| 0:05 | sit | close |''])"
    by (simp add: parser_defs string_defs marker_defs)
  have h2: "\<forall>l\<in>set (js ''|T|A|N|'' # js ''|-|-|-|'' # [js ''| 0:00 | run | wide |'', js ''| 0:05 | sit | close |'']).
              newline \<notin> set l"
    by (simp add: string_defs)
  have h3: "\<forall>row\<in>set [js ''| 0:00 | run | wide |'', js ''| 0:05 | sit | close |'']. length (cellsOf row) = 3"
    by (simp add: cellsOf_def string_defs)
  have c: "map rowOfCells [js ''| 0:00 | run | wide |'', js ''| 0:05 | sit | close |'']
      = [\<lparr>timestamp = js ''0:00'', action = js ''run'', notes' = js ''wide''\<rparr>,
         \<lparr>timestamp = js ''0:05'', action = js ''sit'', notes' = js ''close''\<rparr>]"
    by (simp add: rowOfCells_def cellsOf_def string_defs)
  from table_rows_in_order[OF h1 h2 h3] c show ?thesis by simp
qed

text \<open>
  C5. A line after the first two of the table block whose non-empty trimmed cells are
  fewer or more than three yields no row (the callback returns \<open>null\<close>, the function
  raises nothing), and the lines before and after it are processed as if it were absent:
  \<open>parseAnalysisResult\<close> returns the object whose \<open>sceneBreakdown\<close> is the rows of the lines
  before followed by the rows of the lines after, and it returns an object whenever there
  is such a row (\<open>null\<close> only when there is none and the other two fields are empty too).
\<close>

theorem malformed_row_dropped:
  assumes "tableString text = joinLines (l1 # l2 # before @ bad # after)"
    and "\<forall>l\<in>set (l1 # l2 # before @ bad # after). newline \<notin> set l"
    and "length (cellsOf bad) \<noteq> 3"
  shows "rowOf bad = None
       \<and> sceneBreakdownOf text = rowsOfLines before @ rowsOfLines after
       \<and> (\<forall>r. parseAnalysisResult text = Some r \<longrightarrow>
             sceneBreakdown r = rowsOfLines before @ rowsOfLines after)
       \<and> (rowsOfLines before @ rowsOfLines after \<noteq> [] \<longrightarrow>
             (\<exists>r. parseAnalysisResult text = Some r
                \<and> sceneBreakdown r = rowsOfLines before @ rowsOfLines after))
       \<and> parseAnalysisResult text =
           (if globalCohesionBlockOf text = [] \<and> rowsOfLines before @ rowsOfLines after = []
                \<and> technicalAnalysisOf text = []
            then None
            else Some \<lparr>globalCohesionBlock = globalCohesionBlockOf text,
                        sceneBreakdown = rowsOfLines before @ rowsOfLines after,
                        technicalAnalysis = technicalAnalysisOf text\<rparr>)"
proof -
  have none: "rowOf bad = None" using assms(3) by (simp add: rowOf_None_iff)
  have "sceneBreakdownOf text = rowsOfLines (before @ bad # after)"
    using assms(1,2) by (rule sceneBreakdownOf_joinLines)
  also have "\<dots> = rowsOfLines before @ rowsOfLines after"
    using none by (simp add: rowsOfLines_append rowsOfLines_Cons)
  finally have sb: "sceneBreakdownOf text = rowsOfLines before @ rowsOfLines after" .
  have all: "\<forall>r. parseAnalysisResult text = Some r \<longrightarrow>
             sceneBreakdown r = rowsOfLines before @ rowsOfLines after"
    using sb by (simp add: parse_fields(2))
  have ex: "rowsOfLines before @ rowsOfLines after \<noteq> [] \<longrightarrow>
             (\<exists>r. parseAnalysisResult text = Some r
                \<and> sceneBreakdown r = rowsOfLines before @ rowsOfLines after)"
    using parse_sceneBreakdown_nonempty[OF sb] by blast
  have eq: "parseAnalysisResult text =
           (if globalCohesionBlockOf text = [] \<and> rowsOfLines before @ rowsOfLines after = []
                \<and> technicalAnalysisOf text = []
            then None
            else Some \<lparr>globalCohesionBlock = globalCohesionBlockOf text,
                        sceneBreakdown = rowsOfLines before @ rowsOfLines after,
                        technicalAnalysis = technicalAnalysisOf text\<rparr>)"
    using parse_eq[of "text"] unfolding sb .
  from none sb all ex eq show ?thesis by (intro conjI)
qed

theorem malformed_row_dropped_witness:
  "\<exists>r. parseAnalysisResult
          (js ''DETAILED SCENE BREAKDOWN TABLE\<newline>|T|A|N|\<newline>|-|-|-|\<newline>|a|b|c|\<newline>| only | two |\<newline>|d|e|f|\<newline>TECHNICAL STYLE ANALYSIS'')
        = Some r
      \<and> sceneBreakdown r
        = [\<lparr>timestamp = js ''a'', action = js ''b'', notes' = js ''c''\<rparr>,
           \<lparr>timestamp = js ''d'', action = js ''e'', notes' = js ''f''\<rparr>]"
proof -
  have h1: "tableString
     (js ''DETAILED SCENE BREAKDOWN TABLE\<newline>|T|A|N|\<newline>|-|-|-|\<newline>|a|b|c|\<newline>| only | two |\<newline>|d|e|f|\<newline>TECHNICAL STYLE ANALYSIS'')
     = joinLines (js ''|T|A|N|'' # js ''|-|-|-|'' # [js ''|a|b|c|''] @ js ''| only | two |'' # [js ''|d|e|f|''])"
    by (simp add: parser_defs string_defs marker_defs)
  have h2: "\<forall>l\<in>set (js ''|T|A|N|'' # js ''|-|-|-|'' # [js ''|a|b|c|''] @ js ''| only | two |'' # [js ''|d|e|f|'']).
              newline \<notin> set l"
    by (simp add: string_defs)
  have h3: "length (cellsOf (js ''| only | two |'')) \<noteq> 3"
    by (simp add: cellsOf_def string_defs)
  have c: "rowsOfLines [js ''|a|b|c|''] @ rowsOfLines [js ''|d|e|f|'']
      = [\<lparr>timestamp = js ''a'', action = js ''b'', notes' = js ''c''\<rparr>,
         \<lparr>timestamp = js ''d'', action = js ''e'', notes' = js ''f''\<rparr>]"
    by (simp add: rowsOfLines_def rowOf_def cellsOf_def string_defs Let_def)
  have ne: "rowsOfLines [js ''|a|b|c|''] @ rowsOfLines [js ''|d|e|f|''] \<noteq> []"
    unfolding c by simp
  from malformed_row_dropped[OF h1 h2 h3]
  have "rowsOfLines [js ''|a|b|c|''] @ rowsOfLines [js ''|d|e|f|''] \<noteq> [] \<longrightarrow>
     (\<exists>r. parseAnalysisResult
          (js ''DETAILED SCENE BREAKDOWN TABLE\<newline>|T|A|N|\<newline>|-|-|-|\<newline>|a|b|c|\<newline>| only | two |\<newline>|d|e|f|\<newline>TECHNICAL STYLE ANALYSIS'')
        = Some r
      \<and> sceneBreakdown r = rowsOfLines [js ''|a|b|c|''] @ rowsOfLines [js ''|d|e|f|''])"
    by (elim conjE)
  with ne show ?thesis unfolding c by blast
qed

text \<open>
  C6. \<open>parseAnalysisResult\<close> returns \<open>null\<close> exactly when the extracted cohesion block is
  empty, the extracted table has no rows and the extracted technical analysis is empty;
  in every other case it returns the object with the three extracted values, whichever of
  them are empty. In particular a text in which none of the three markers occurs gives
  \<open>null\<close>.
\<close>

theorem null_iff_all_empty:
  "parseAnalysisResult text =
     (if globalCohesionBlockOf text = [] \<and> sceneBreakdownOf text = [] \<and> technicalAnalysisOf text = []
      then None
      else Some \<lparr>globalCohesionBlock = globalCohesionBlockOf text,
                  sceneBreakdown = sceneBreakdownOf text,
                  technicalAnalysis = technicalAnalysisOf text\<rparr>)
   \<and> (\<not> includes_js text GLOBAL_COHESION_BLOCK
        \<and> \<not> includes_js text DETAILED_SCENE_BREAKDOWN_TABLE
        \<and> \<not> includes_js text TECHNICAL_STYLE_ANALYSIS
      \<longrightarrow> globalCohesionBlockOf text = [] \<and> sceneBreakdownOf text = []
          \<and> technicalAnalysisOf text = [] \<and> parseAnalysisResult text = None)"
proof -
  have eq: "parseAnalysisResult text =
     (if globalCohesionBlockOf text = [] \<and> sceneBreakdownOf text = [] \<and> technicalAnalysisOf text = []
      then None
      else Some \<lparr>globalCohesionBlock = globalCohesionBlockOf text,
                  sceneBreakdown = sceneBreakdownOf text,
                  technicalAnalysis = technicalAnalysisOf text\<rparr>)"
    by (simp add: parseAnalysisResult_def Let_def)
  have absent: "globalCohesionBlockOf text = [] \<and> sceneBreakdownOf text = []
          \<and> technicalAnalysisOf text = []"
    if "\<not> includes_js text GLOBAL_COHESION_BLOCK"
      "\<not> includes_js text DETAILED_SCENE_BREAKDOWN_TABLE"
      "\<not> includes_js text TECHNICAL_STYLE_ANALYSIS"
  proof -
    from that have i: "indexOf text GLOBAL_COHESION_BLOCK = None"
      "indexOf text DETAILED_SCENE_BREAKDOWN_TABLE = None"
      "indexOf text TECHNICAL_STYLE_ANALYSIS = None"
      by (simp_all add: includes_js_def)
    have "globalCohesionBlockOf text = []"
      by (simp add: globalCohesionBlockOf_def globalCohesionBlockMatch_def lazy_between_absent[OF i(1)])
    moreover have "tableString text = []"
      by (simp add: tableString_def tableMatch_def lazy_between_absent[OF i(2)])
    then have "sceneBreakdownOf text = []"
      by (simp add: sceneBreakdownOf_def sceneBreakdownOfTable_def)
    moreover have "technicalAnalysisOf text = []"
      by (simp add: technicalAnalysisOf_def technicalAnalysisMatch_def greedy_after_absent[OF i(3)])
    ultimately show ?thesis by simp
  qed
  show ?thesis
  proof (intro conjI impI)
    show "parseAnalysisResult text =
     (if globalCohesionBlockOf text = [] \<and> sceneBreakdownOf text = [] \<and> technicalAnalysisOf text = []
      then None
      else Some \<lparr>globalCohesionBlock = globalCohesionBlockOf text,
                  sceneBreakdown = sceneBreakdownOf text,
                  technicalAnalysis = technicalAnalysisOf text\<rparr>)" by (rule eq)
  next
    assume a: "\<not> includes_js text GLOBAL_COHESION_BLOCK
        \<and> \<not> includes_js text DETAILED_SCENE_BREAKDOWN_TABLE
        \<and> \<not> includes_js text TECHNICAL_STYLE_ANALYSIS"
    then have e: "globalCohesionBlockOf text = [] \<and> sceneBreakdownOf text = []
          \<and> technicalAnalysisOf text = []" using absent by blast
    from e show "globalCohesionBlockOf text = []" by simp
    from e show "sceneBreakdownOf text = []" by simp
    from e show "technicalAnalysisOf text = []" by simp
    from e eq show "parseAnalysisResult text = None" by simp
  qed
qed

theorem null_iff_all_empty_witness:
  "\<not> includes_js (js ''The video shows a dog.'') GLOBAL_COHESION_BLOCK
   \<and> \<not> includes_js (js ''The video shows a dog.'') DETAILED_SCENE_BREAKDOWN_TABLE
   \<and> \<not> includes_js (js ''The video shows a dog.'') TECHNICAL_STYLE_ANALYSIS
   \<and> parseAnalysisResult (js ''The video shows a dog.'') = None"
proof -
  have h: "\<not> includes_js (js ''The video shows a dog.'') GLOBAL_COHESION_BLOCK
   \<and> \<not> includes_js (js ''The video shows a dog.'') DETAILED_SCENE_BREAKDOWN_TABLE
   \<and> \<not> includes_js (js ''The video shows a dog.'') TECHNICAL_STYLE_ANALYSIS"
    by (simp add: includes_js_def js_def marker_defs)
  from mp[OF conjunct2[OF null_iff_all_empty] h] h show ?thesis by blast
qed

text \<open>
  C7. The first two lines of the trimmed table block are discarded by position, whatever
  they contain: the rows come from the lines after the second only, and when there is
  such a row \<open>parseAnalysisResult\<close> returns an object with exactly these rows. A table
  block of fewer than two lines (one without a line break, the empty block included) gives
  no rows: the object returned when another field is non-empty has an empty
  \<open>sceneBreakdown\<close>. The function is total, so no error arises.
\<close>

theorem first_two_lines_skipped:
  "(tableString text = joinLines (l1 # l2 # ls) \<and> (\<forall>l\<in>set (l1 # l2 # ls). newline \<notin> set l)
      \<longrightarrow> sceneBreakdownOf text = rowsOfLines ls)
   \<and> (newline \<notin> set (tableString text) \<longrightarrow> sceneBreakdownOf text = [])
   \<and> (length (split newline (tableString text)) < 2 \<longrightarrow> sceneBreakdownOf text = [])
   \<and> (\<forall>r. parseAnalysisResult text = Some r \<longrightarrow> sceneBreakdown r = sceneBreakdownOf text)
   \<and> (tableString text = joinLines (l1 # l2 # ls) \<and> (\<forall>l\<in>set (l1 # l2 # ls). newline \<notin> set l)
        \<and> rowsOfLines ls \<noteq> []
      \<longrightarrow> (\<exists>r. parseAnalysisResult text = Some r \<and> sceneBreakdown r = rowsOfLines ls))
   \<and> (length (split newline (tableString text)) < 2
        \<and> (globalCohesionBlockOf text \<noteq> [] \<or> technicalAnalysisOf text \<noteq> [])
      \<longrightarrow> (\<exists>r. parseAnalysisResult text = Some r \<and> sceneBreakdown r = []))
   \<and> parseAnalysisResult text =
       (if globalCohesionBlockOf text = [] \<and> sceneBreakdownOf text = []
            \<and> technicalAnalysisOf text = []
        then None
        else Some \<lparr>globalCohesionBlock = globalCohesionBlockOf text,
                    sceneBreakdown = sceneBreakdownOf text,
                    technicalAnalysis = technicalAnalysisOf text\<rparr>)"
proof (intro conjI impI allI)
  assume "tableString text = joinLines (l1 # l2 # ls) \<and> (\<forall>l\<in>set (l1 # l2 # ls). newline \<notin> set l)"
  then show "sceneBreakdownOf text = rowsOfLines ls"
    using sceneBreakdownOf_joinLines by blast
next
  assume "newline \<notin> set (tableString text)"
  then show "sceneBreakdownOf text = []"
    by (simp add: sceneBreakdownOf_def sceneBreakdownOfTable_def split_no_sep)
next
  assume "length (split newline (tableString text)) < 2"
  then show "sceneBreakdownOf text = []"
    by (simp add: sceneBreakdownOf_def sceneBreakdownOfTable_def)
next
  fix r assume "parseAnalysisResult text = Some r"
  then show "sceneBreakdown r = sceneBreakdownOf text" by (rule parse_fields(2))
next
  assume a: "tableString text = joinLines (l1 # l2 # ls) \<and> (\<forall>l\<in>set (l1 # l2 # ls). newline \<notin> set l)
        \<and> rowsOfLines ls \<noteq> []"
  then have "sceneBreakdownOf text = rowsOfLines ls"
    using sceneBreakdownOf_joinLines by blast
  with a show "\<exists>r. parseAnalysisResult text = Some r \<and> sceneBreakdown r = rowsOfLines ls"
    using parse_sceneBreakdown_nonempty by blast
next
  assume a: "length (split newline (tableString text)) < 2
        \<and> (globalCohesionBlockOf text \<noteq> [] \<or> technicalAnalysisOf text \<noteq> [])"
  then have "sceneBreakdownOf text = []"
    by (simp add: sceneBreakdownOf_def sceneBreakdownOfTable_def)
  moreover from a have "\<exists>r. parseAnalysisResult text = Some r \<and> sceneBreakdown r = sceneBreakdownOf text"
    using parse_other_field_nonempty by blast
  ultimately show "\<exists>r. parseAnalysisResult text = Some r \<and> sceneBreakdown r = []" by simp
next
  show "parseAnalysisResult text =
       (if globalCohesionBlockOf text = [] \<and> sceneBreakdownOf text = []
            \<and> technicalAnalysisOf text = []
        then None
        else Some \<lparr>globalCohesionBlock = globalCohesionBlockOf text,
                    sceneBreakdown = sceneBreakdownOf text,
                    technicalAnalysis = technicalAnalysisOf text\<rparr>)"
    by (rule parse_eq)
qed

theorem first_two_lines_skipped_witness:
  "(\<exists>r. parseAnalysisResult
          (js ''DETAILED SCENE BREAKDOWN TABLE\<newline>|a|b|c|\<newline>|d|e|f|\<newline>|g|h|i|\<newline>TECHNICAL STYLE ANALYSIS'')
         = Some r
       \<and> sceneBreakdown r = [\<lparr>timestamp = js ''g'', action = js ''h'', notes' = js ''i''\<rparr>])
   \<and> (\<exists>r. parseAnalysisResult
          (js ''DETAILED SCENE BREAKDOWN TABLE\<newline>|a|b|c|\<newline>TECHNICAL STYLE ANALYSIS\<newline>z'')
         = Some r
       \<and> sceneBreakdown r = [])"
proof -
  have c: "rowsOfLines [js ''|g|h|i|''] = [\<lparr>timestamp = js ''g'', action = js ''h'', notes' = js ''i''\<rparr>]"
    by (simp add: rowsOfLines_def rowOf_def cellsOf_def string_defs Let_def)
  have h1: "tableString
     (js ''DETAILED SCENE BREAKDOWN TABLE\<newline>|a|b|c|\<newline>|d|e|f|\<newline>|g|h|i|\<newline>TECHNICAL STYLE ANALYSIS'')
     = joinLines (js ''|a|b|c|'' # js ''|d|e|f|'' # [js ''|g|h|i|''])
     \<and> (\<forall>l\<in>set (js ''|a|b|c|'' # js ''|d|e|f|'' # [js ''|g|h|i|'']). newline \<notin> set l)
     \<and> rowsOfLines [js ''|g|h|i|''] \<noteq> []"
    unfolding c by (simp add: parser_defs string_defs marker_defs)
  have h2: "length (split newline (tableString
       (js ''DETAILED SCENE BREAKDOWN TABLE\<newline>|a|b|c|\<newline>TECHNICAL STYLE ANALYSIS\<newline>z''))) < 2
     \<and> (globalCohesionBlockOf
           (js ''DETAILED SCENE BREAKDOWN TABLE\<newline>|a|b|c|\<newline>TECHNICAL STYLE ANALYSIS\<newline>z'') \<noteq> []
        \<or> technicalAnalysisOf
           (js ''DETAILED SCENE BREAKDOWN TABLE\<newline>|a|b|c|\<newline>TECHNICAL STYLE ANALYSIS\<newline>z'') \<noteq> [])"
    by (simp add: parser_defs string_defs marker_defs)
  have "\<exists>r. parseAnalysisResult
          (js ''DETAILED SCENE BREAKDOWN TABLE\<newline>|a|b|c|\<newline>|d|e|f|\<newline>|g|h|i|\<newline>TECHNICAL STYLE ANALYSIS'')
         = Some r
       \<and> sceneBreakdown r = rowsOfLines [js ''|g|h|i|'']"
    using mp[OF conjunct1[OF conjunct2[OF conjunct2[OF conjunct2[OF conjunct2[OF first_two_lines_skipped]]]]] h1] .
  moreover have "\<exists>r. parseAnalysisResult
          (js ''DETAILED SCENE BREAKDOWN TABLE\<newline>|a|b|c|\<newline>TECHNICAL STYLE ANALYSIS\<newline>z'')
         = Some r
       \<and> sceneBreakdown r = []"
    using mp[OF conjunct1[OF conjunct2[OF conjunct2[OF conjunct2[OF conjunct2[OF conjunct2[OF first_two_lines_skipped]]]]]] h2] .
  ultimately show ?thesis unfolding c by (intro conjI)
qed

text \<open>
  C9. In every object that \<open>parseAnalysisResult\<close> returns, each row of \<open>sceneBreakdown\<close>
  has a non-empty \<open>timestamp\<close>, \<open>action\<close> and \<open>notes\<close>: the empty cells are filtered out
  before the three-cells test.
\<close>

theorem rows_have_nonempty_fields:
  assumes "parseAnalysisResult text = Some r"
  shows "\<forall>row\<in>set (sceneBreakdown r). timestamp row \<noteq> [] \<and> action row \<noteq> [] \<and> notes' row \<noteq> []"
proof
  fix row assume "row \<in> set (sceneBreakdown r)"
  then have "row \<in> set (rowsOfLines (drop 2 (split newline (tableString text))))"
    using parse_fields(2)[OF assms] by (simp add: sceneBreakdownOf_def sceneBreakdownOfTable_def)
  then obtain l where "rowOf l = Some row" using rowsOfLines_mem by blast
  then show "timestamp row \<noteq> [] \<and> action row \<noteq> [] \<and> notes' row \<noteq> []"
    by (rule rowOf_fields_nonempty)
qed

theorem rows_have_nonempty_fields_witness:
  "parseAnalysisResult
     (js ''DETAILED SCENE BREAKDOWN TABLE\<newline>|T|A|N|\<newline>|-|-|-|\<newline>| 0:00 | run | wide |\<newline>TECHNICAL STYLE ANALYSIS'')
     = Some \<lparr>globalCohesionBlock = [],
              sceneBreakdown = [\<lparr>timestamp = js ''0:00'', action = js ''run'', notes' = js ''wide''\<rparr>],
              technicalAnalysis = []\<rparr>
   \<and> timestamp \<lparr>timestamp = js ''0:00'', action = js ''run'', notes' = js ''wide''\<rparr> \<noteq> []
   \<and> action \<lparr>timestamp = js ''0:00'', action = js ''run'', notes' = js ''wide''\<rparr> \<noteq> []
   \<and> notes' \<lparr>timestamp = js ''0:00'', action = js ''run'', notes' = js ''wide''\<rparr> \<noteq> []"
proof -
  have h: "parseAnalysisResult
     (js ''DETAILED SCENE BREAKDOWN TABLE\<newline>|T|A|N|\<newline>|-|-|-|\<newline>| 0:00 | run | wide |\<newline>TECHNICAL STYLE ANALYSIS'')
     = Some \<lparr>globalCohesionBlock = [],
              sceneBreakdown = [\<lparr>timestamp = js ''0:00'', action = js ''run'', notes' = js ''wide''\<rparr>],
              technicalAnalysis = []\<rparr>"
    by (simp add: parser_defs string_defs marker_defs)
  from rows_have_nonempty_fields[OF h] h show ?thesis by simp
qed

section \<open>Properties of the analysis client and its caller\<close>

text \<open>
  C1. Every failure inside \<open>analyzeVideo\<close> should come back, without a rejection, as a
  string that starts with \<open>Error: \<close>. It does not when the file cannot be read:
  \<open>FileReader.onerror\<close> rejects with its event, which is no \<open>Error\<close>, and the \<open>catch\<close> clause
  then returns \<open>An unknown error occurred during video analysis.\<close>, which starts neither
  with \<open>Error: \<close> nor with the \<open>Error:\<close> that the caller tests.
\<close>

theorem analyzeVideo_unknown_error_unprefixed:
  "analyzeVideo \<lparr>readAsDataURL = (\<lambda>file. OnError), generateContent = (\<lambda>req. Inr []), PROMPT = []\<rparr>
       () []
     = (Inr (js ''An unknown error occurred during video analysis.''), [])
   \<and> \<not> startsWith (js ''An unknown error occurred during video analysis.'') (js ''Error: '')
   \<and> \<not> startsWith (js ''An unknown error occurred during video analysis.'') (js ''Error:'')"
  by (simp add: analyzeVideo_def analyzeVideo_try_def fileToBase64_def js_def)

text \<open>
  C8. If the MIME type that \<open>fileToBase64\<close> extracts does not begin with \<open>video/\<close>, the
  \<open>try\<close> block fails with the invalid-file-type error and \<open>analyzeVideo\<close> returns its
  error string, with the log of calls of the remote model unchanged: no request is made.
\<close>

theorem non_video_rejected_before_call:
  assumes "fileToBase64 w file = Inr enc"
    and "\<not> startsWith (mimeType enc) (js ''video/'')"
  shows "analyzeVideo_try w file calls
           = (Inl (ErrorInstance (js ''Invalid file type. Please upload a video file.'')), calls)
       \<and> analyzeVideo w file calls
           = (Inr (js ''Error: Invalid file type. Please upload a video file.''), calls)"
proof -
  have t: "analyzeVideo_try w file calls
           = (Inl (ErrorInstance (js ''Invalid file type. Please upload a video file.'')), calls)"
    using assms by (simp add: analyzeVideo_try_def)
  have "js ''Error: '' @ js ''Invalid file type. Please upload a video file.''
          = js ''Error: Invalid file type. Please upload a video file.''"
    by (simp add: js_def)
  with analyzeVideo_Error_prefixed[OF t] t show ?thesis by simp
qed

theorem non_video_rejected_before_call_witness:
  "analyzeVideo
     \<lparr>readAsDataURL = (\<lambda>file. OnLoad (js ''data:image/png;base64,iVBORw0KGgo='')),
      generateContent = (\<lambda>req. Inr (js ''unused'')), PROMPT = js ''prompt''\<rparr> () []
   = (Inr (js ''Error: Invalid file type. Please upload a video file.''), [])"
proof -
  have h1: "fileToBase64
     \<lparr>readAsDataURL = (\<lambda>file. OnLoad (js ''data:image/png;base64,iVBORw0KGgo='')),
      generateContent = (\<lambda>req. Inr (js ''unused'')), PROMPT = js ''prompt''\<rparr> ()
     = Inr \<lparr>base64Data = js ''iVBORw0KGgo='', mimeType = js ''image/png''\<rparr>"
    by (simp add: client_defs)
  have h2: "\<not> startsWith (mimeType \<lparr>base64Data = js ''iVBORw0KGgo='', mimeType = js ''image/png''\<rparr>)
              (js ''video/'')"
    by (simp add: js_def)
  from non_video_rejected_before_call[OF h1 h2, of "[]"] show ?thesis by simp
qed

text \<open>
  C10. With a file selected, \<open>handleAnalyzeVideo\<close> treats the string that \<open>analyzeVideo\<close>
  returns as a failure (error set, no analysis result) if and only if it starts with
  \<open>Error:\<close>; in that case the error is the string itself, otherwise the string becomes the
  analysis result and no error is set. Hence a response of the model that begins with
  \<open>Error:\<close> is shown as an error, and the string returned after a failed file read, which
  lacks the prefix, is shown as an analysis.
\<close>

theorem caller_classifies_by_prefix:
  assumes "videoFile st = Some file"
  shows "(\<forall>s calls'. analyzeVideo w file calls = (Inr s, calls') \<longrightarrow>
            ((error (fst (handleAnalyzeVideo w st calls)) \<noteq> None
                \<and> analysisResult (fst (handleAnalyzeVideo w st calls)) = None)
              \<longleftrightarrow> startsWith s (js ''Error:''))
          \<and> (startsWith s (js ''Error:'') \<longrightarrow>
                error (fst (handleAnalyzeVideo w st calls)) = Some s)
          \<and> (\<not> startsWith s (js ''Error:'') \<longrightarrow>
                analysisResult (fst (handleAnalyzeVideo w st calls)) = Some s
                \<and> error (fst (handleAnalyzeVideo w st calls)) = None))
       \<and> (\<forall>enc s. fileToBase64 w file = Inr enc \<and> startsWith (mimeType enc) (js ''video/'')
              \<and> generateContent w (requestFor w enc) = Inr s \<and> startsWith s (js ''Error:'')
            \<longrightarrow> error (fst (handleAnalyzeVideo w st calls)) = Some s
                \<and> analysisResult (fst (handleAnalyzeVideo w st calls)) = None)
       \<and> (readAsDataURL w file = OnError \<longrightarrow>
            analysisResult (fst (handleAnalyzeVideo w st calls))
              = Some (js ''An unknown error occurred during video analysis.'')
            \<and> error (fst (handleAnalyzeVideo w st calls)) = None)"
proof (intro conjI allI impI)
  fix s calls'
  assume a: "analyzeVideo w file calls = (Inr s, calls')"
  note h = handle_result[OF assms a]
  show "(error (fst (handleAnalyzeVideo w st calls)) \<noteq> None
                \<and> analysisResult (fst (handleAnalyzeVideo w st calls)) = None)
              \<longleftrightarrow> startsWith s (js ''Error:'')"
    by (simp add: h)
  show "error (fst (handleAnalyzeVideo w st calls)) = Some s" if "startsWith s (js ''Error:'')"
    using that by (simp add: h)
  show "analysisResult (fst (handleAnalyzeVideo w st calls)) = Some s"
    if "\<not> startsWith s (js ''Error:'')"
    using that by (simp add: h)
  show "error (fst (handleAnalyzeVideo w st calls)) = None"
    if "\<not> startsWith s (js ''Error:'')"
    using that by (simp add: h)
next
  fix enc s
  assume a: "fileToBase64 w file = Inr enc \<and> startsWith (mimeType enc) (js ''video/'')
              \<and> generateContent w (requestFor w enc) = Inr s \<and> startsWith s (js ''Error:'')"
  then have "analyzeVideo_try w file calls = (Inr s, calls @ [requestFor w enc])"
    by (simp add: analyzeVideo_video_call)
  then have "analyzeVideo w file calls = (Inr s, calls @ [requestFor w enc])"
    by (rule analyzeVideo_success)
  note h = handle_result[OF assms this]
  from a show "error (fst (handleAnalyzeVideo w st calls)) = Some s" by (simp add: h)
  from a show "analysisResult (fst (handleAnalyzeVideo w st calls)) = None" by (simp add: h)
next
  assume "readAsDataURL w file = OnError"
  then have "analyzeVideo w file calls
           = (Inr (js ''An unknown error occurred during video analysis.''), calls)"
    by (rule analyzeVideo_read_error)
  note h = handle_result[OF assms this]
  have n: "\<not> startsWith (js ''An unknown error occurred during video analysis.'') (js ''Error:'')"
    by (simp add: js_def)
  show "analysisResult (fst (handleAnalyzeVideo w st calls))
              = Some (js ''An unknown error occurred during video analysis.'')"
    using n by (simp add: h)
  show "error (fst (handleAnalyzeVideo w st calls)) = None"
    using n by (simp add: h)
qed

theorem caller_classifies_by_prefix_witness:
  "error (fst (handleAnalyzeVideo
       \<lparr>readAsDataURL = (\<lambda>file. OnLoad (js ''data:video/mp4;base64,AAAA'')),
        generateContent = (\<lambda>req. Inr (js ''Error: none detected'')), PROMPT = js ''prompt''\<rparr>
       \<lparr>videoFile = Some (), videoPreviewUrl = None, isLoading = False,
        analysisResult = None, error = None\<rparr> []))
     = Some (js ''Error: none detected'')
   \<and> analysisResult (fst (handleAnalyzeVideo
       \<lparr>readAsDataURL = (\<lambda>file. OnLoad (js ''data:video/mp4;base64,AAAA'')),
        generateContent = (\<lambda>req. Inr (js ''Error: none detected'')), PROMPT = js ''prompt''\<rparr>
       \<lparr>videoFile = Some (), videoPreviewUrl = None, isLoading = False,
        analysisResult = None, error = None\<rparr> []))
     = None
   \<and> analysisResult (fst (handleAnalyzeVideo
       \<lparr>readAsDataURL = (\<lambda>file. OnError),
        generateContent = (\<lambda>req. Inr (js ''unused'')), PROMPT = js ''prompt''\<rparr>
       \<lparr>videoFile = Some (), videoPreviewUrl = None, isLoading = False,
        analysisResult = None, error = None\<rparr> []))
     = Some (js ''An unknown error occurred during video analysis.'')
   \<and> error (fst (handleAnalyzeVideo
       \<lparr>readAsDataURL = (\<lambda>file. OnError),
        generateContent = (\<lambda>req. Inr (js ''unused'')), PROMPT = js ''prompt''\<rparr>
       \<lparr>videoFile = Some (), videoPreviewUrl = None, isLoading = False,
        analysisResult = None, error = None\<rparr> []))
     = None"
proof -
  let ?st = "\<lparr>videoFile = Some (), videoPreviewUrl = None, isLoading = False,
        analysisResult = None, error = None :: jsstring option\<rparr>"
  let ?wA = "\<lparr>readAsDataURL = (\<lambda>file::unit. OnLoad (js ''data:video/mp4;base64,AAAA'')),
        generateContent = (\<lambda>req. Inr (js ''Error: none detected'')), PROMPT = js ''prompt''\<rparr>"
  let ?wB = "\<lparr>readAsDataURL = (\<lambda>file::unit. OnError),
        generateContent = (\<lambda>req. Inr (js ''unused'')), PROMPT = js ''prompt''\<rparr>"
  have v: "videoFile ?st = Some ()" by simp
  have a: "analyzeVideo ?wA () []
      = (Inr (js ''Error: none detected''),
         [requestFor ?wA \<lparr>base64Data = js ''AAAA'', mimeType = js ''video/mp4''\<rparr>])"
    by (simp add: analyzeVideo_def analyzeVideo_try_def fileToBase64_def mimeMatch_def
        lazy_between_at_def isLineTerminator_def comma_def js_def Let_def)
  have p: "startsWith (js ''Error: none detected'') (js ''Error:'')" by (simp add: js_def)
  have b: "readAsDataURL ?wB () = OnError" by simp
  note tA = caller_classifies_by_prefix[OF v, of ?wA "[]"]
  note tB = caller_classifies_by_prefix[OF v, of ?wB "[]"]
  have 1: "error (fst (handleAnalyzeVideo ?wA ?st [])) = Some (js ''Error: none detected'')"
    using tA a p by blast
  have 2: "analysisResult (fst (handleAnalyzeVideo ?wA ?st [])) = None"
    using tA a p by blast
  have 3: "analysisResult (fst (handleAnalyzeVideo ?wB ?st []))
     = Some (js ''An unknown error occurred during video analysis.'')
   \<and> error (fst (handleAnalyzeVideo ?wB ?st [])) = None"
    using tB b by blast
  from 1 2 3 show ?thesis by blast
qed

end
